theory Spec2Isabelle
  imports Complex_Main "HOL-Library.Sublist" "HOL-Library.AList"
begin

section \<open>Text scanning: the completion marker\<close>

text \<open>
  The harness of \<^verbatim>\<open>distributed-locks/benchmark.py\<close> recognises the end of a workload by
  scanning the text returned by \<^verbatim>\<open>docker compose logs\<close>:
  \<^verbatim>\<open>
        if "TOTAL_TIME_MS:" in result.stdout:
            match = re.search(r"TOTAL_TIME_MS: (\d+)", result.stdout)
            if match:
                total_time_ms = int(match.group(1))
                break
  \<close>
  Text is a \<^typ>\<open>string\<close>; \<^verbatim>\<open>\d\<close> is modelled on the ASCII digits, and Python's \<^verbatim>\<open>int\<close> is
  the unbounded type \<^typ>\<open>int\<close> (the interpreter's optional limit on the length of a decimal
  string is not modelled).
\<close>

definition is_digit :: "char \<Rightarrow> bool" where
  "is_digit c = (c \<in> set ''0123456789'')"

text \<open>\<^verbatim>\<open>sub in s\<close> on strings: some suffix of \<open>s\<close> starts with \<open>sub\<close>.\<close>

fun contains :: "string \<Rightarrow> string \<Rightarrow> bool" where
  "contains sub [] = (sub = [])"
| "contains sub (c # cs) = (prefix sub (c # cs) \<or> contains sub cs)"

text \<open>
  The pattern \<^verbatim>\<open>TOTAL_TIME_MS: (\d+)\<close> tried at the start of \<open>s\<close>: the literal text, then
  the longest run of digits, which must not be empty. The result is group 1.
\<close>

definition match_here :: "string \<Rightarrow> string option" where
  "match_here s =
     (if prefix ''TOTAL_TIME_MS: '' s
      then (let ds = takeWhile is_digit (drop (length ''TOTAL_TIME_MS: '') s)
            in if ds = [] then None else Some ds)
      else None)"

text \<open>\<^verbatim>\<open>re.search\<close>: the leftmost position at which the pattern matches.\<close>

fun re_search :: "string \<Rightarrow> string option" where
  "re_search [] = match_here []"
| "re_search (c # cs) =
     (case match_here (c # cs) of Some ds \<Rightarrow> Some ds | None \<Rightarrow> re_search cs)"

text \<open>\<^verbatim>\<open>int(s)\<close> on a string of decimal digits.\<close>

definition py_int :: "string \<Rightarrow> int" where
  "py_int ds = foldl (\<lambda>acc c. 10 * acc + int (of_char c - 48)) 0 ds"

text \<open>
  One scan of a fetched log text (lines 27 to 31 of the source): \<open>Some v\<close> when the loop
  would set \<^verbatim>\<open>total_time_ms = v\<close> and break, \<open>None\<close> when it goes on to the timeout test.
\<close>

definition scan_logs :: "string \<Rightarrow> int option" where
  "scan_logs out =
     (if contains ''TOTAL_TIME_MS:'' out
      then (case re_search out of Some ds \<Rightarrow> Some (py_int ds) | None \<Rightarrow> None)
      else None)"


section \<open>The percentage difference\<close>

text \<open>
  \<^verbatim>\<open>
        diff = ((red_time - lua_time) / lua_time * 100) if lua_time > 0 else 0
  \<close>
  Python's \<^verbatim>\<open>/\<close> raises \<^verbatim>\<open>ZeroDivisionError\<close> on a zero divisor; its floating-point
  result is idealised as a \<^typ>\<open>real\<close>.
\<close>

datatype py_exception = OSError | UnicodeDecodeError | ZeroDivisionError

definition truediv :: "int \<Rightarrow> int \<Rightarrow> py_exception + real" where
  "truediv a b = (if b = 0 then Inl ZeroDivisionError else Inr (real_of_int a / real_of_int b))"

definition percent_diff :: "int \<Rightarrow> int \<Rightarrow> py_exception + real" where
  "percent_diff lua_time red_time =
     (if lua_time > 0
      then (case truediv (red_time - lua_time) lua_time of
              Inl e \<Rightarrow> Inl e
            | Inr q \<Rightarrow> Inr (q * 100))
      else Inr 0)"

section \<open>The world outside the harness\<close>

text \<open>
  \<^verbatim>\<open>run_benchmark\<close> acts on the world only through \<^verbatim>\<open>subprocess.run\<close>, \<^verbatim>\<open>time.time\<close>,
  \<^verbatim>\<open>time.sleep\<close>, \<^verbatim>\<open>print\<close> and the dictionary \<^verbatim>\<open>os.environ\<close>. The world is passed
  explicitly. Its clock counts milliseconds; \<open>respond\<close> tells, for the \<open>n\<close>-th child process
  and its argument vector, whether \<^verbatim>\<open>subprocess.run\<close> raises or which text the child wrote
  to its standard output, and how long the call took; \<open>lag\<close> is the time by which the
  \<open>k\<close>-th \<^verbatim>\<open>time.sleep\<close> overshoots. Dictionaries live in a store addressed by references, so
  that \<^verbatim>\<open>os.environ.copy()\<close> and item assignment are the operations of the source. Every
  child process and every printed line is recorded, in order, in \<open>events\<close>; a \<open>Spawn\<close>
  event holds the environment the child received.
\<close>

type_synonym dict = "(string \<times> string) list"
type_synonym ref = nat

datatype event = Spawn "string list" dict | Print string

record reply =
  outcome :: "py_exception + string"
  took :: nat

record world =
  now :: nat
  respond :: "nat \<Rightarrow> string list \<Rightarrow> reply"
  spawned :: nat
  lag :: "nat \<Rightarrow> nat"
  slept :: nat
  heap :: "dict list"
  events :: "event list"

text \<open>\<^verbatim>\<open>print(line)\<close>.\<close>

definition print :: "string \<Rightarrow> world \<Rightarrow> world" where
  "print line w = w\<lparr>events := events w @ [Print line]\<rparr>"

text \<open>\<^verbatim>\<open>os.environ\<close> is the first object of the store.\<close>

definition os_environ :: ref where
  "os_environ = 0"

text \<open>\<^verbatim>\<open>d.copy()\<close> allocates a new dictionary; \<^verbatim>\<open>d[k] = v\<close> updates the one referred to.\<close>

definition dict_copy :: "ref \<Rightarrow> world \<Rightarrow> ref \<times> world" where
  "dict_copy r w = (length (heap w), w\<lparr>heap := heap w @ [heap w ! r]\<rparr>)"

definition dict_setitem :: "ref \<Rightarrow> string \<Rightarrow> string \<Rightarrow> world \<Rightarrow> world" where
  "dict_setitem r k v w = w\<lparr>heap := (heap w)[r := AList.update k v (heap w ! r)]\<rparr>"

text \<open>
  \<^verbatim>\<open>subprocess.run(argv, env=env, capture_output=True)\<close>: no \<^verbatim>\<open>check=True\<close>, so a child
  that exits with an error status still returns its output; the call raises only when the
  child cannot be started or its output cannot be decoded.
\<close>

definition subprocess_run :: "string list \<Rightarrow> ref \<Rightarrow> world \<Rightarrow> (py_exception + string) \<times> world" where
  "subprocess_run argv env w =
     (outcome (respond w (spawned w) argv),
      w\<lparr>now := now w + took (respond w (spawned w) argv),
        spawned := Suc (spawned w),
        events := events w @ [Spawn argv (heap w ! env)]\<rparr>)"

definition time_time :: "world \<Rightarrow> nat" where
  "time_time w = now w"

definition time_sleep :: "nat \<Rightarrow> world \<Rightarrow> world" where
  "time_sleep secs w =
     w\<lparr>now := now w + 1000 * secs + lag w (slept w), slept := Suc (slept w)\<rparr>"

text \<open>\<^verbatim>\<open>str(n)\<close> of an integer, and the format specifications of the report.\<close>

definition digit_char :: "nat \<Rightarrow> char" where
  "digit_char n = ''0123456789'' ! n"

fun str_nat :: "nat \<Rightarrow> string" where
  "str_nat n = (if n < 10 then [digit_char n] else str_nat (n div 10) @ [digit_char (n mod 10)])"

declare str_nat.simps [simp del]

definition str :: "int \<Rightarrow> string" where
  "str i = (if i < 0 then CHR ''-'' # str_nat (nat (- i)) else str_nat (nat i))"

definition ljust :: "nat \<Rightarrow> string \<Rightarrow> string" where
  "ljust width s = s @ replicate (width - length s) CHR '' ''"

definition rjust :: "nat \<Rightarrow> string \<Rightarrow> string" where
  "rjust width s = replicate (width - length s) CHR '' '' @ s"

text \<open>
  \<^verbatim>\<open>{diff:>8.2f}\<close>: two decimals, right-aligned in eight columns. The float is idealised
  as a real, rounded to the nearest hundredth, an exact tie to the even neighbour.
\<close>

definition round_half_even :: "real \<Rightarrow> int" where
  "round_half_even x =
     (let f = \<lfloor>x\<rfloor>; r = x - real_of_int f
      in if r < 1 / 2 then f else if r > 1 / 2 then f + 1 else if even f then f else f + 1)"

definition format_2f :: "real \<Rightarrow> string" where
  "format_2f x =
     (let n = nat (round_half_even (\<bar>x\<bar> * 100))
      in (if x < 0 then ''-'' else []) @ str_nat (n div 100) @ ''.''
           @ [digit_char (n mod 100 div 10), digit_char (n mod 10)])"

section \<open>One trial\<close>

text \<open>The three command lines of \<^verbatim>\<open>run_benchmark\<close>.\<close>

definition compose_down :: "string \<Rightarrow> string list" where
  "compose_down profile = [''docker'', ''compose'', ''--profile'', profile, ''down'']"

definition compose_up :: "string \<Rightarrow> string list" where
  "compose_up profile =
     [''docker'', ''compose'', ''--profile'', profile, ''up'', ''--build'', ''-d'']"

definition compose_logs :: "string \<Rightarrow> string list" where
  "compose_logs service_name = [''docker'', ''compose'', ''logs'', service_name]"

text \<open>
  The texts built by f-strings: the announcement of a trial, the name \<^verbatim>\<open>app-{profile}\<close> of
  the service whose logs are read, and the diagnostic of a timeout.
\<close>

definition running_line :: "string \<Rightarrow> int \<Rightarrow> int \<Rightarrow> string" where
  "running_line profile consumers work_duration =
     ''Running benchmark for '' @ profile @ '' with '' @ str consumers
       @ '' consumers and '' @ str work_duration @ ''ms work...''"

definition service_name_of :: "string \<Rightarrow> string" where
  "service_name_of profile = ''app-'' @ profile"

definition timeout_line :: "string \<Rightarrow> string" where
  "timeout_line profile = ''Timeout waiting for '' @ profile"

text \<open>
  The polling loop:
  \<^verbatim>\<open>
    while True:
        result = subprocess.run(["docker", "compose", "logs", service_name], env=env, ...)
        if "TOTAL_TIME_MS:" in result.stdout:
            match = re.search(r"TOTAL_TIME_MS: (\d+)", result.stdout)
            if match:
                total_time_ms = int(match.group(1))
                break
        if time.time() - start_time > 60: # 60s timeout
            print(f"Timeout waiting for {profile}")
            break
        time.sleep(1)
  \<close>
  The result is the value of \<^verbatim>\<open>total_time_ms\<close> at the break (still its initial \<open>0\<close> on a
  timeout), or the exception that left the loop. The loop ends because every round that
  goes on sleeps a second and no call makes the clock go back.
\<close>

function poll :: "string \<Rightarrow> string \<Rightarrow> ref \<Rightarrow> nat \<Rightarrow> world \<Rightarrow> (py_exception + int) \<times> world" where
  "poll profile service_name env start_time w =
     (case subprocess_run (compose_logs service_name) env w of
        (Inl e, w1) \<Rightarrow> (Inl e, w1)
      | (Inr out, w1) \<Rightarrow>
          (case scan_logs out of
             Some v \<Rightarrow> (Inr v, w1)
           | None \<Rightarrow>
               if time_time w1 - start_time > 60000
               then (Inr 0, print (timeout_line profile) w1)
               else poll profile service_name env start_time (time_sleep 1 w1)))"
  by pat_completeness auto
termination
proof (relation "measure (\<lambda>(profile, service_name, env, start_time, w). 60001 + start_time - now w)")
  show "wf (measure (\<lambda>(profile, service_name, env, start_time, w). 60001 + start_time - now w))"
    by simp
next
  fix profile service_name :: string and env start_time :: nat and w w1 :: world
    and x :: "py_exception + string \<times> world" and y out
  assume "\<not> 60000 < time_time w1 - start_time"
    and "(y, w1) = subprocess_run (compose_logs service_name) env w"
  then show "((profile, service_name, env, start_time, time_sleep 1 w1),
              profile, service_name, env, start_time, w)
             \<in> measure (\<lambda>(profile, service_name, env, start_time, w). 60001 + start_time - now w)"
    by (auto simp: subprocess_run_def time_sleep_def time_time_def)
qed

declare poll.simps [simp del]

text \<open>
  \<^verbatim>\<open>run_benchmark(profile, consumers, work_duration)\<close>. The source has no exception
  handler: an exception raised by any call leaves the function at once.
\<close>

definition run_benchmark :: "string \<Rightarrow> int \<Rightarrow> int \<Rightarrow> world \<Rightarrow> (py_exception + int) \<times> world" where
  "run_benchmark profile consumers work_duration w0 =
     (let w1 = print (running_line profile consumers work_duration) w0;
          (env, w2) = dict_copy os_environ w1;
          w3 = dict_setitem env ''NUM_CONSUMERS'' (str consumers) w2;
          w4 = dict_setitem env ''WORK_DURATION'' (str work_duration) w3
      in case subprocess_run (compose_down profile) env w4 of
           (Inl e, w5) \<Rightarrow> (Inl e, w5)
         | (Inr _, w5) \<Rightarrow>
      (case subprocess_run (compose_up profile) env w5 of
           (Inl e, w6) \<Rightarrow> (Inl e, w6)
         | (Inr _, w6) \<Rightarrow>
      (case poll profile (service_name_of profile) env (time_time w6) w6 of
           (Inl e, w7) \<Rightarrow> (Inl e, w7)
         | (Inr total_time_ms, w7) \<Rightarrow>
      (case subprocess_run (compose_down profile) env w7 of
           (Inl e, w8) \<Rightarrow> (Inl e, w8)
         | (Inr _, w8) \<Rightarrow> (Inr total_time_ms, w8)))))"

section \<open>The sweep\<close>

text \<open>
  \<^verbatim>\<open>
    for count in consumer_counts:
        lua_time = run_benchmark("lua", count, work_duration)
        red_time = run_benchmark("redlock", count, work_duration)
        diff = ((red_time - lua_time) / lua_time * 100) if lua_time > 0 else 0
        print(f"{count:<10} | {lua_time:<10} | {red_time:<15} | {diff:>8.2f}%")
  \<close>
\<close>

definition report_row :: "int \<Rightarrow> int \<Rightarrow> int \<Rightarrow> real \<Rightarrow> string" where
  "report_row count lua_time red_time diff =
     ljust 10 (str count) @ '' | '' @ ljust 10 (str lua_time) @ '' | ''
       @ ljust 15 (str red_time) @ '' | '' @ rjust 8 (format_2f diff) @ ''%''"

fun sweep :: "int list \<Rightarrow> int \<Rightarrow> world \<Rightarrow> (py_exception + unit) \<times> world" where
  "sweep [] work_duration w = (Inr (), w)"
| "sweep (count # rest) work_duration w =
     (case run_benchmark ''lua'' count work_duration w of
        (Inl e, w1) \<Rightarrow> (Inl e, w1)
      | (Inr lua_time, w1) \<Rightarrow>
     (case run_benchmark ''redlock'' count work_duration w1 of
        (Inl e, w2) \<Rightarrow> (Inl e, w2)
      | (Inr red_time, w2) \<Rightarrow>
     (case percent_diff lua_time red_time of
        Inl e \<Rightarrow> (Inl e, w2)
      | Inr diff \<Rightarrow>
          sweep rest work_duration (print (report_row count lua_time red_time diff) w2))))"

definition header :: string where
  "header = ljust 10 ''Consumers'' @ '' | '' @ ljust 10 ''Lua (ms)'' @ '' | ''
     @ ljust 15 ''Redlock (ms)'' @ '' | '' @ ljust 10 ''Diff (%)''"

definition main :: "world \<Rightarrow> (py_exception + unit) \<times> world" where
  "main w = sweep [5, 10, 100, 200] 50 (print (replicate 55 CHR ''-'') (print header w))"

text \<open>A host whose environment holds one variable, at time \<open>0\<close>, with exact sleeps.\<close>

definition boot :: "(nat \<Rightarrow> string list \<Rightarrow> reply) \<Rightarrow> world" where
  "boot r = \<lparr>now = 0, respond = r, spawned = 0, lag = (\<lambda>_. 0), slept = 0,
              heap = [[(''PATH'', ''/usr/bin'')]], events = []\<rparr>"

section \<open>Notions used in the statements\<close>

text \<open>The reply to the next log fetch, and the events the polling loop can add.\<close>

definition fetch :: "string \<Rightarrow> world \<Rightarrow> reply" where
  "fetch service_name w = respond w (spawned w) (compose_logs service_name)"

definition poll_event :: "string \<Rightarrow> string \<Rightarrow> dict \<Rightarrow> event \<Rightarrow> bool" where
  "poll_event profile service_name d e =
     (e = Spawn (compose_logs service_name) d \<or> e = Print (timeout_line profile))"

text \<open>What the loop leaves untouched, and what it adds to the record of events.\<close>

definition poll_frame :: "string \<Rightarrow> string \<Rightarrow> ref \<Rightarrow> world \<Rightarrow> world \<Rightarrow> bool" where
  "poll_frame p sn env w w' \<longleftrightarrow>
     respond w' = respond w \<and> lag w' = lag w \<and> heap w' = heap w \<and> now w \<le> now w'
     \<and> (\<exists>xs. events w' = events w @ xs \<and> list_all (poll_event p sn (heap w ! env)) xs)"

text \<open>No call of \<^verbatim>\<open>subprocess.run\<close> raises, whatever is run and whenever.\<close>

definition never_raises :: "world \<Rightarrow> bool" where
  "never_raises w = (\<forall>n argv. \<not> isl (outcome (respond w n argv)))"

text \<open>The environment a trial builds, and the world once it is built and announced.\<close>

definition trial_env :: "int \<Rightarrow> int \<Rightarrow> world \<Rightarrow> dict" where
  "trial_env consumers work_duration w =
     AList.update ''WORK_DURATION'' (str work_duration)
       (AList.update ''NUM_CONSUMERS'' (str consumers) (heap w ! os_environ))"

definition prepare :: "string \<Rightarrow> int \<Rightarrow> int \<Rightarrow> world \<Rightarrow> world" where
  "prepare profile consumers work_duration w =
     w\<lparr>events := events w @ [Print (running_line profile consumers work_duration)],
       heap := heap w @ [trial_env consumers work_duration w]\<rparr>"

text \<open>The world in which the polling loop starts, when reset and start did not raise.\<close>

definition started :: "string \<Rightarrow> int \<Rightarrow> int \<Rightarrow> world \<Rightarrow> world" where
  "started profile consumers work_duration w =
     snd (subprocess_run (compose_up profile) (length (heap w))
       (snd (subprocess_run (compose_down profile) (length (heap w))
          (prepare profile consumers work_duration w))))"




text \<open>A world in which every log text is complete at once.\<close>

definition prompt :: "nat \<Rightarrow> string list \<Rightarrow> reply" where
  "prompt n argv =
     (if argv = compose_logs ''app-lua'' then \<lparr>outcome = Inr ''TOTAL_TIME_MS: 120'', took = 0\<rparr>
      else if argv = compose_logs ''app-redlock''
      then \<lparr>outcome = Inr ''TOTAL_TIME_MS: 300'', took = 0\<rparr>
      else \<lparr>outcome = Inr [], took = 0\<rparr>)"


text \<open>A world without markers in which every child process takes 45 seconds.\<close>

definition sluggish :: "nat \<Rightarrow> string list \<Rightarrow> reply" where
  "sluggish n argv = \<lparr>outcome = Inr [], took = 45000\<rparr>"

text \<open>A world without markers in which nothing takes time.\<close>

definition mute :: "nat \<Rightarrow> string list \<Rightarrow> reply" where
  "mute n argv = \<lparr>outcome = Inr [], took = 0\<rparr>"


text \<open>
  A world in which the first fetch of the Lua logs takes 70 seconds and returns the marker.
\<close>

definition late :: "nat \<Rightarrow> string list \<Rightarrow> reply" where
  "late n argv =
     (if argv = compose_logs ''app-lua''
      then \<lparr>outcome = Inr ''TOTAL_TIME_MS: 120'', took = 70000\<rparr>
      else \<lparr>outcome = Inr [], took = 0\<rparr>)"

text \<open>
  The events of a trial that ran to its end: the announcement, reset and start, the events
  \<open>xs\<close> of the polling loop, and the teardown, all children with the environment \<open>d\<close>.
\<close>

definition trial_trace :: "string \<Rightarrow> int \<Rightarrow> int \<Rightarrow> dict \<Rightarrow> event list \<Rightarrow> event list" where
  "trial_trace profile consumers work_duration d xs =
     [Print (running_line profile consumers work_duration), Spawn (compose_down profile) d,
      Spawn (compose_up profile) d] @ xs @ [Spawn (compose_down profile) d]"

definition is_trial :: "string \<Rightarrow> int \<Rightarrow> int \<Rightarrow> event list \<Rightarrow> bool" where
  "is_trial profile consumers work_duration t =
     (\<exists>d xs. t = trial_trace profile consumers work_duration d xs
        \<and> list_all (poll_event profile (service_name_of profile) d) xs)"

text \<open>The logs of a service show the marker with value \<open>v\<close> whenever they are fetched.\<close>

definition shows_at_once :: "string \<Rightarrow> int \<Rightarrow> world \<Rightarrow> bool" where
  "shows_at_once service_name v w =
     (\<forall>n. \<exists>out. outcome (respond w n (compose_logs service_name)) = Inr out
        \<and> scan_logs out = Some v)"

text \<open>
  The fields of a printed row: the texts between the bars, without the padding
  (\<^verbatim>\<open>[f.strip() for f in line.split("|")]\<close>).
\<close>

fun split_on :: "char \<Rightarrow> string \<Rightarrow> string list" where
  "split_on sep [] = [[]]"
| "split_on sep (c # cs) =
     (if c = sep then [] # split_on sep cs
      else (case split_on sep cs of f # fs \<Rightarrow> (c # f) # fs | [] \<Rightarrow> [[c]]))"

definition strip :: "string \<Rightarrow> string" where
  "strip s = rev (dropWhile (\<lambda>c. c = CHR '' '') (rev (dropWhile (\<lambda>c. c = CHR '' '') s)))"

definition row_fields :: "string \<Rightarrow> string list" where
  "row_fields line = map strip (split_on CHR ''|'' line)"

text \<open>
  The events of one level of a sweep that ran to its end: the whole Lua trial, then the whole
  Redlock trial, then the row of that level.
\<close>

definition level_trace :: "int \<times> event list \<times> event list \<times> string \<Rightarrow> event list" where
  "level_trace seg = (case seg of (count, lua, red, line) \<Rightarrow> lua @ red @ [Print line])"

definition is_level :: "int \<Rightarrow> int \<times> event list \<times> event list \<times> string \<Rightarrow> bool" where
  "is_level work_duration seg =
     (case seg of (count, lua, red, line) \<Rightarrow>
        is_trial ''lua'' count work_duration lua \<and> is_trial ''redlock'' count work_duration red
        \<and> (\<exists>lua_time red_time diff. line = report_row count lua_time red_time diff))"


section \<open>Properties of the scan\<close>

lemma match_here_Nil [simp]: "match_here [] = None"
  by (simp add: match_here_def)





















lemma poll_raise:
  "outcome (fetch sn w) = Inl e \<Longrightarrow>
     poll p sn env st w = (Inl e, snd (subprocess_run (compose_logs sn) env w))"
  by (subst poll.simps) (simp add: subprocess_run_def fetch_def)

lemma poll_found:
  "outcome (fetch sn w) = Inr out \<Longrightarrow> scan_logs out = Some v \<Longrightarrow>
     poll p sn env st w = (Inr v, snd (subprocess_run (compose_logs sn) env w))"
  by (subst poll.simps) (simp add: subprocess_run_def fetch_def)

lemma poll_timeout:
  "outcome (fetch sn w) = Inr out \<Longrightarrow> scan_logs out = None \<Longrightarrow>
   60000 < now w + took (fetch sn w) - st \<Longrightarrow>
     poll p sn env st w =
       (Inr 0, print (timeout_line p) (snd (subprocess_run (compose_logs sn) env w)))"
  by (subst poll.simps) (simp add: subprocess_run_def fetch_def time_time_def)

lemma poll_sleep:
  "outcome (fetch sn w) = Inr out \<Longrightarrow> scan_logs out = None \<Longrightarrow>
   \<not> 60000 < now w + took (fetch sn w) - st \<Longrightarrow>
     poll p sn env st w =
       poll p sn env st (time_sleep 1 (snd (subprocess_run (compose_logs sn) env w)))"
  by (subst poll.simps) (simp add: subprocess_run_def fetch_def time_time_def)

lemma poll_cases [case_names raise found timeout sleep]:
  assumes "\<And>e. outcome (fetch sn w) = Inl e \<Longrightarrow> P"
    and "\<And>out v. outcome (fetch sn w) = Inr out \<Longrightarrow> scan_logs out = Some v \<Longrightarrow> P"
    and "\<And>out. outcome (fetch sn w) = Inr out \<Longrightarrow> scan_logs out = None \<Longrightarrow>
           60000 < now w + took (fetch sn w) - st \<Longrightarrow> P"
    and "\<And>out. outcome (fetch sn w) = Inr out \<Longrightarrow> scan_logs out = None \<Longrightarrow>
           \<not> 60000 < now w + took (fetch sn w) - st \<Longrightarrow> P"
  shows P
proof (cases "outcome (fetch sn w)")
  case (Inl e)
  then show ?thesis by (rule assms(1))
next
  case (Inr out)
  show ?thesis
  proof (cases "scan_logs out")
    case None
    with Inr show ?thesis using assms(3,4) by blast
  next
    case (Some v)
    with Inr show ?thesis using assms(2) by blast
  qed
qed

lemma poll_frame_fetch:
  "poll_frame p sn env w (snd (subprocess_run (compose_logs sn) env w))"
  by (simp add: poll_frame_def subprocess_run_def poll_event_def)

lemma poll_frame_print:
  "poll_frame p sn env w w' \<Longrightarrow> poll_frame p sn env w (print (timeout_line p) w')"
  by (auto simp: poll_frame_def print_def poll_event_def)

lemma poll_frame_sleep:
  "poll_frame p sn env w w' \<Longrightarrow> poll_frame p sn env w (time_sleep secs w')"
  by (auto simp: poll_frame_def time_sleep_def)

lemma poll_frame_trans:
  "poll_frame p sn env w w' \<Longrightarrow> poll_frame p sn env w' w'' \<Longrightarrow> poll_frame p sn env w w''"
  by (auto simp: poll_frame_def)

lemma poll_frame_poll: "poll_frame p sn env w (snd (poll p sn env st w))"
proof (induction p sn env st w rule: poll.induct)
  case (1 p sn env st w)
  let ?w1 = "snd (subprocess_run (compose_logs sn) env w)"
  have f: "poll_frame p sn env w ?w1" by (rule poll_frame_fetch)
  show ?case
  proof (cases rule: poll_cases [of sn w _ st])
    case (raise e)
    then show ?thesis using f by (simp add: poll_raise)
  next
    case (found out v)
    then show ?thesis using f by (simp add: poll_found)
  next
    case (timeout out)
    then show ?thesis using f by (simp add: poll_timeout poll_frame_print)
  next
    case (sleep out)
    have "poll_frame p sn env (time_sleep 1 ?w1) (snd (poll p sn env st (time_sleep 1 ?w1)))"
    proof (rule "1.IH")
      show "(outcome (fetch sn w), ?w1) = subprocess_run (compose_logs sn) env w"
        by (simp add: subprocess_run_def fetch_def)
      show "outcome (fetch sn w) = Inr out" by (rule sleep(1))
      show "scan_logs out = None" by (rule sleep(2))
      show "\<not> 60000 < time_time ?w1 - st"
        using sleep(3) by (simp add: time_time_def subprocess_run_def fetch_def)
    qed
    with f show ?thesis
      using sleep by (simp add: poll_sleep) (blast intro: poll_frame_trans poll_frame_sleep)
  qed
qed

lemma dict_copy_environ:
  "dict_copy os_environ (print line w) =
     (length (heap w), w\<lparr>events := events w @ [Print line], heap := heap w @ [heap w ! os_environ]\<rparr>)"
  by (simp add: dict_copy_def print_def)

lemma prepare_eq:
  "dict_setitem (length (heap w)) ''WORK_DURATION'' (str wd)
     (dict_setitem (length (heap w)) ''NUM_CONSUMERS'' (str c)
        (w\<lparr>events := events w @ [Print (running_line p c wd)],
           heap := heap w @ [heap w ! os_environ]\<rparr>))
   = prepare p c wd w"
  by (simp add: dict_setitem_def prepare_def trial_env_def)

lemma run_benchmark_unfold:
  "run_benchmark p c wd w0 =
     (case subprocess_run (compose_down p) (length (heap w0)) (prepare p c wd w0) of
        (Inl e, w5) \<Rightarrow> (Inl e, w5)
      | (Inr x, w5) \<Rightarrow>
     (case subprocess_run (compose_up p) (length (heap w0)) w5 of
        (Inl e, w6) \<Rightarrow> (Inl e, w6)
      | (Inr x, w6) \<Rightarrow>
     (case poll p (service_name_of p) (length (heap w0)) (time_time w6) w6 of
        (Inl e, w7) \<Rightarrow> (Inl e, w7)
      | (Inr total_time_ms, w7) \<Rightarrow>
     (case subprocess_run (compose_down p) (length (heap w0)) w7 of
        (Inl e, w8) \<Rightarrow> (Inl e, w8)
      | (Inr x, w8) \<Rightarrow> (Inr total_time_ms, w8)))))"
  unfolding run_benchmark_def Let_def dict_copy_environ prod.case prepare_eq ..

lemma never_raises_outcome:
  "never_raises w \<Longrightarrow> \<exists>out. outcome (respond w n argv) = Inr out"
proof (cases "outcome (respond w n argv)")
  case (Inl e)
  assume "never_raises w"
  then have "\<not> isl (outcome (respond w n argv))" unfolding never_raises_def by blast
  with Inl show ?thesis by simp
next
  case (Inr out)
  then show ?thesis by blast
qed

lemma respond_run [simp]: "respond (snd (subprocess_run argv env w)) = respond w"
  by (simp add: subprocess_run_def)

lemma respond_prepare [simp]: "respond (prepare p c wd w) = respond w"
  by (simp add: prepare_def)

lemma respond_poll [simp]: "respond (snd (poll p sn env st w)) = respond w"
  using poll_frame_poll [of p sn env w st] by (simp add: poll_frame_def)

lemma respond_started [simp]: "respond (started p c wd w) = respond w"
  by (simp add: started_def)

lemma poll_no_raise: "never_raises w \<Longrightarrow> \<exists>v. fst (poll p sn env st w) = Inr v"
proof (induction p sn env st w rule: poll.induct)
  case (1 p sn env st w)
  let ?w1 = "snd (subprocess_run (compose_logs sn) env w)"
  show ?case
  proof (cases rule: poll_cases [of sn w _ st])
    case (raise e)
    with never_raises_outcome [OF "1.prems", of "spawned w" "compose_logs sn"]
    show ?thesis by (simp add: fetch_def)
  next
    case (found out v)
    then show ?thesis by (simp add: poll_found)
  next
    case (timeout out)
    then show ?thesis by (simp add: poll_timeout)
  next
    case (sleep out)
    have "\<exists>v. fst (poll p sn env st (time_sleep 1 ?w1)) = Inr v"
    proof (rule "1.IH")
      show "(outcome (fetch sn w), ?w1) = subprocess_run (compose_logs sn) env w"
        by (simp add: subprocess_run_def fetch_def)
      show "outcome (fetch sn w) = Inr out" by (rule sleep(1))
      show "scan_logs out = None" by (rule sleep(2))
      show "\<not> 60000 < time_time ?w1 - st"
        using sleep(3) by (simp add: time_time_def subprocess_run_def fetch_def)
      show "never_raises (time_sleep 1 ?w1)"
        using "1.prems" by (simp add: never_raises_def time_sleep_def subprocess_run_def)
    qed
    with sleep show ?thesis by (simp add: poll_sleep)
  qed
qed

lemma run_no_raise: "never_raises w \<Longrightarrow> \<exists>out. fst (subprocess_run argv env w) = Inr out"
  using never_raises_outcome [of w "spawned w" argv] by (simp add: subprocess_run_def)

lemma run_benchmark_no_raise:
  assumes "never_raises w"
  shows "\<exists>v. fst (poll p (service_name_of p) (length (heap w)) (now (started p c wd w))
                (started p c wd w)) = Inr v
           \<and> run_benchmark p c wd w =
               (Inr v, snd (subprocess_run (compose_down p) (length (heap w))
                  (snd (poll p (service_name_of p) (length (heap w)) (now (started p c wd w))
                     (started p c wd w)))))"
proof -
  let ?env = "length (heap w)"
  let ?w4 = "prepare p c wd w"
  let ?w5 = "snd (subprocess_run (compose_down p) ?env ?w4)"
  let ?w6 = "started p c wd w"
  let ?w7 = "snd (poll p (service_name_of p) ?env (now ?w6) ?w6)"
  have n4: "never_raises ?w4" using assms by (simp add: never_raises_def)
  have n5: "never_raises ?w5" using assms by (simp add: never_raises_def)
  have n6: "never_raises ?w6" using assms by (simp add: never_raises_def)
  have n7: "never_raises ?w7" using assms by (simp add: never_raises_def)
  from run_no_raise [OF n4] obtain o1 where
    r1: "fst (subprocess_run (compose_down p) ?env ?w4) = Inr o1" by blast
  from run_no_raise [OF n5] obtain o2 where
    r2: "fst (subprocess_run (compose_up p) ?env ?w5) = Inr o2" by blast
  from poll_no_raise [OF n6] obtain v where
    r3: "fst (poll p (service_name_of p) ?env (now ?w6) ?w6) = Inr v" by blast
  from run_no_raise [OF n7] obtain o3 where
    r4: "fst (subprocess_run (compose_down p) ?env ?w7) = Inr o3" by blast
  have w6: "snd (subprocess_run (compose_up p) ?env ?w5) = ?w6" by (simp add: started_def)
  have "run_benchmark p c wd w = (Inr v, snd (subprocess_run (compose_down p) ?env ?w7))"
    by (subst run_benchmark_unfold)
       (simp only: case_prod_beta r1 r2 r3 r4 w6 time_time_def sum.case)
  with r3 show ?thesis by blast
qed

lemma heap_run [simp]: "heap (snd (subprocess_run argv env w)) = heap w"
  by (simp add: subprocess_run_def)

lemma events_run [simp]:
  "events (snd (subprocess_run argv env w)) = events w @ [Spawn argv (heap w ! env)]"
  by (simp add: subprocess_run_def)

lemma heap_prepare [simp]: "heap (prepare p c wd w) = heap w @ [trial_env c wd w]"
  by (simp add: prepare_def)

lemma events_prepare [simp]:
  "events (prepare p c wd w) = events w @ [Print (running_line p c wd)]"
  by (simp add: prepare_def)

lemma heap_started [simp]: "heap (started p c wd w) = heap w @ [trial_env c wd w]"
  by (simp add: started_def)

lemma events_started:
  "events (started p c wd w) =
     events w @ [Print (running_line p c wd), Spawn (compose_down p) (trial_env c wd w),
                 Spawn (compose_up p) (trial_env c wd w)]"
  by (simp add: started_def)

lemma heap_poll [simp]: "heap (snd (poll p sn env st w)) = heap w"
  using poll_frame_poll [of p sn env w st] by (simp add: poll_frame_def)

lemma events_poll:
  "\<exists>xs. events (snd (poll p sn env st w)) = events w @ xs
        \<and> list_all (poll_event p sn (heap w ! env)) xs"
  using poll_frame_poll [of p sn env w st] by (simp add: poll_frame_def)


lemma trial_events_no_raise:
  assumes "never_raises w"
  shows "\<exists>v w' xs. run_benchmark p c wd w = (Inr v, w')
           \<and> events w' = events w @ [Print (running_line p c wd),
                 Spawn (compose_down p) (trial_env c wd w),
                 Spawn (compose_up p) (trial_env c wd w)] @ xs
                 @ [Spawn (compose_down p) (trial_env c wd w)]
           \<and> list_all (poll_event p (service_name_of p) (trial_env c wd w)) xs"
proof -
  let ?w6 = "started p c wd w"
  let ?w7 = "snd (poll p (service_name_of p) (length (heap w)) (now ?w6) ?w6)"
  let ?w8 = "snd (subprocess_run (compose_down p) (length (heap w)) ?w7)"
  from run_benchmark_no_raise [OF assms] obtain v where
    v: "run_benchmark p c wd w = (Inr v, ?w8)" by blast
  from events_poll [of p "service_name_of p" "length (heap w)" "now ?w6" ?w6]
  obtain xs where xs: "events ?w7 = events ?w6 @ xs"
    "list_all (poll_event p (service_name_of p) (trial_env c wd w)) xs"
    by auto
  have "events ?w8 = events ?w7 @ [Spawn (compose_down p) (trial_env c wd w)]" by simp
  with xs have "events ?w8 = events w @ [Print (running_line p c wd),
                 Spawn (compose_down p) (trial_env c wd w),
                 Spawn (compose_up p) (trial_env c wd w)] @ xs
                 @ [Spawn (compose_down p) (trial_env c wd w)]"
    by (simp add: events_started)
  with v xs(2) show ?thesis by blast
qed



lemma never_raises_prompt: "never_raises (boot prompt)"
  by (simp add: never_raises_def boot_def prompt_def)



lemma lag_run [simp]: "lag (snd (subprocess_run argv env w)) = lag w"
  by (simp add: subprocess_run_def)

lemma now_run:
  "now (snd (subprocess_run argv env w)) = now w + took (respond w (spawned w) argv)"
  by (simp add: subprocess_run_def)

lemma poll_time_bound:
  "\<forall>n argv. took (respond w n argv) \<le> D \<Longrightarrow> \<forall>k. lag w k \<le> L \<Longrightarrow>
   now w \<le> st + 61000 + L \<Longrightarrow>
     now (snd (poll p sn env st w)) \<le> st + 61000 + L + D"
proof (induction p sn env st w rule: poll.induct)
  case (1 p sn env st w)
  let ?w1 = "snd (subprocess_run (compose_logs sn) env w)"
  have t: "took (fetch sn w) \<le> D" using "1.prems"(1) by (simp add: fetch_def)
  have n1: "now ?w1 = now w + took (fetch sn w)" by (simp add: subprocess_run_def fetch_def)
  have b: "now ?w1 \<le> st + 61000 + L + D" using t n1 "1.prems"(3) by simp
  show ?case
  proof (cases rule: poll_cases [of sn w _ st])
    case (raise e)
    then show ?thesis using b by (simp add: poll_raise)
  next
    case (found out v)
    then show ?thesis using b by (simp add: poll_found)
  next
    case (timeout out)
    then show ?thesis using b by (simp add: poll_timeout print_def)
  next
    case (sleep out)
    let ?w2 = "time_sleep 1 ?w1"
    have "now (snd (poll p sn env st ?w2)) \<le> st + 61000 + L + D"
    proof (rule "1.IH")
      show "(outcome (fetch sn w), ?w1) = subprocess_run (compose_logs sn) env w"
        by (simp add: subprocess_run_def fetch_def)
      show "outcome (fetch sn w) = Inr out" by (rule sleep(1))
      show "scan_logs out = None" by (rule sleep(2))
      show "\<not> 60000 < time_time ?w1 - st"
        using sleep(3) by (simp add: time_time_def subprocess_run_def fetch_def)
      show "\<forall>n argv. took (respond ?w2 n argv) \<le> D"
        using "1.prems"(1) by (simp add: time_sleep_def)
      show "\<forall>k. lag ?w2 k \<le> L" using "1.prems"(2) by (simp add: time_sleep_def)
      have "lag ?w1 (slept ?w1) \<le> L" using "1.prems"(2) by simp
      then show "now ?w2 \<le> st + 61000 + L"
        using sleep(3) n1 by (simp add: time_sleep_def)
    qed
    with sleep show ?thesis by (simp add: poll_sleep)
  qed
qed

text \<open>
  Claim C3, as the code has it. The loop always ends. The time from its start to its end is
  at most the 60 seconds of the budget, plus the second of one sleep, plus the longest
  overshoot \<open>L\<close> of a sleep, plus the longest time \<open>D\<close> one log fetch takes, in
  milliseconds; it is at most 61 seconds when fetches and overshoots take no time.
\<close>

theorem poll_ends_within:
  assumes "\<forall>n argv. took (respond w n argv) \<le> D" and "\<forall>k. lag w k \<le> L"
  shows "now (snd (poll p sn env (time_time w) w)) - time_time w \<le> 61000 + L + D"
proof -
  have "now w \<le> time_time w + 61000 + L" by (simp add: time_time_def)
  from poll_time_bound [OF assms this, where p = p and sn = sn and env = env]
  show ?thesis by linarith
qed

theorem poll_ends_within_witness:
  "(\<forall>n argv. took (respond (boot mute) n argv) \<le> 0) \<and> (\<forall>k. lag (boot mute) k \<le> 0)
   \<and> now (snd (poll ''lua'' (service_name_of ''lua'') os_environ (time_time (boot mute))
         (boot mute))) - time_time (boot mute) \<le> 61000"
proof -
  have h: "\<forall>n argv. took (respond (boot mute) n argv) \<le> 0" "\<forall>k. lag (boot mute) k \<le> 0"
    by (simp_all add: boot_def mute_def)
  from poll_ends_within [OF h, of "''lua''" "service_name_of ''lua''" os_environ] h
  show ?thesis by simp
qed

text \<open>
  With log fetches of 45 seconds and no marker, the loop tests the clock 45 and 91 seconds
  after its start, and ends only at the second test.
\<close>

lemma scan_logs_Nil [simp]: "scan_logs [] = None"
  by (simp add: scan_logs_def)

theorem poll_exceeds_61_seconds:
  "61000 < now (snd (poll ''lua'' (service_name_of ''lua'') os_environ
             (time_time (boot sluggish)) (boot sluggish))) - time_time (boot sluggish)"
proof -
  let ?sn = "service_name_of ''lua''"
  let ?w1 = "snd (subprocess_run (compose_logs ?sn) os_environ (boot sluggish))"
  let ?w2 = "time_sleep (Suc 0) ?w1"
  let ?w3 = "snd (subprocess_run (compose_logs ?sn) os_environ ?w2)"
  have t0: "time_time (boot sluggish) = 0" by (simp add: time_time_def boot_def)
  have r2: "respond ?w2 = sluggish" by (simp add: time_sleep_def boot_def)
  have n2: "now ?w2 = 46000"
    by (simp add: time_sleep_def subprocess_run_def boot_def sluggish_def)
  have "poll ''lua'' ?sn os_environ 0 (boot sluggish) = poll ''lua'' ?sn os_environ 0 ?w2"
    by (rule poll_sleep [where out = "[]", unfolded One_nat_def])
       (simp_all add: fetch_def boot_def sluggish_def)
  also have "\<dots> = (Inr 0, print (timeout_line ''lua'') ?w3)"
    by (rule poll_timeout [where out = "[]"]) (simp_all add: fetch_def r2 n2 sluggish_def)
  finally have "now (snd (poll ''lua'' ?sn os_environ 0 (boot sluggish))) = now ?w3"
    by (simp add: print_def)
  also have "\<dots> = 91000" by (simp add: now_run r2 n2 sluggish_def)
  finally show ?thesis by (simp add: t0)
qed

lemma respond_sleep [simp]: "respond (time_sleep secs w) = respond w"
  by (simp add: time_sleep_def)


lemma respond_run_benchmark:
  "never_raises w \<Longrightarrow> respond (snd (run_benchmark p c wd w)) = respond w"
  using run_benchmark_no_raise [of w p c wd] by auto


lemma never_raises_run_benchmark:
  "never_raises w \<Longrightarrow> never_raises (snd (run_benchmark p c wd w))"
  by (simp add: never_raises_def respond_run_benchmark)

lemma trial_no_raise:
  "never_raises w \<Longrightarrow> \<exists>v. fst (run_benchmark p c wd w) = Inr v"
  using run_benchmark_no_raise [of w p c wd] by auto












lemma spawned_started: "spawned (started p c wd w) = spawned w + 2"
  by (simp add: started_def subprocess_run_def prepare_def)

lemma poll_first_event:
  "\<exists>xs. events (snd (poll p sn env st w))
          = events w @ Spawn (compose_logs sn) (heap w ! env) # xs"
proof (cases rule: poll_cases [of sn w _ st])
  case (raise e)
  then show ?thesis by (simp add: poll_raise)
next
  case (found out v)
  then show ?thesis by (simp add: poll_found)
next
  case (timeout out)
  then show ?thesis by (simp add: poll_timeout print_def)
next
  case (sleep out)
  let ?w2 = "time_sleep 1 (snd (subprocess_run (compose_logs sn) env w))"
  from poll_frame_poll [of p sn env ?w2 st] obtain xs where
    "events (snd (poll p sn env st ?w2)) = events ?w2 @ xs"
    unfolding poll_frame_def by blast
  moreover have "events ?w2 = events w @ [Spawn (compose_logs sn) (heap w ! env)]"
    by (simp add: time_sleep_def)
  ultimately show ?thesis using sleep by (simp add: poll_sleep)
qed

text \<open>
  Claim C9. Every run of the loop begins with a log fetch. When the text of that first fetch
  holds the marker, the loop returns its value at once, whatever the clock shows and
  however long the fetch took: the elapsed time is not looked at. So does the trial, when
  nothing raises.
\<close>

theorem first_fetch_before_timeout:
  "(\<exists>xs. events (snd (poll p sn env st w))
           = events w @ Spawn (compose_logs sn) (heap w ! env) # xs)
   \<and> (outcome (fetch sn w) = Inr out \<and> scan_logs out = Some v
        \<longrightarrow> poll p sn env st w = (Inr v, snd (subprocess_run (compose_logs sn) env w)))
   \<and> (never_raises w
        \<and> outcome (respond w (spawned w + 2) (compose_logs (service_name_of p))) = Inr out
        \<and> scan_logs out = Some v
        \<longrightarrow> fst (run_benchmark p c wd w) = Inr v)"
proof (intro conjI impI)
  show "\<exists>xs. events (snd (poll p sn env st w))
           = events w @ Spawn (compose_logs sn) (heap w ! env) # xs"
    by (rule poll_first_event)
next
  assume "outcome (fetch sn w) = Inr out \<and> scan_logs out = Some v"
  then show "poll p sn env st w = (Inr v, snd (subprocess_run (compose_logs sn) env w))"
    by (simp add: poll_found)
next
  assume a: "never_raises w
        \<and> outcome (respond w (spawned w + 2) (compose_logs (service_name_of p))) = Inr out
        \<and> scan_logs out = Some v"
  let ?w6 = "started p c wd w"
  from a have "outcome (fetch (service_name_of p) ?w6) = Inr out"
    by (simp add: fetch_def spawned_started)
  with a have "fst (poll p (service_name_of p) (length (heap w)) (now ?w6) ?w6) = Inr v"
    by (simp add: poll_found)
  moreover from a have "never_raises w" by simp
  from run_benchmark_no_raise [OF this, of p c wd]
  obtain v' where "fst (poll p (service_name_of p) (length (heap w)) (now ?w6) ?w6) = Inr v'"
    "fst (run_benchmark p c wd w) = Inr v'" by auto
  ultimately show "fst (run_benchmark p c wd w) = Inr v" by simp
qed

lemma never_raises_late: "never_raises (boot late)"
  by (simp add: never_raises_def boot_def late_def)

lemma scan_120: "scan_logs ''TOTAL_TIME_MS: 120'' = Some 120"
  by (simp add: scan_logs_def match_here_def is_digit_def py_int_def)

theorem first_fetch_before_timeout_witness:
  "never_raises (boot late)
   \<and> outcome (respond (boot late) (spawned (boot late) + 2)
        (compose_logs (service_name_of ''lua''))) = Inr ''TOTAL_TIME_MS: 120''
   \<and> scan_logs ''TOTAL_TIME_MS: 120'' = Some 120
   \<and> 60000 < took (respond (boot late) (spawned (boot late) + 2)
        (compose_logs (service_name_of ''lua'')))
   \<and> fst (run_benchmark ''lua'' 5 50 (boot late)) = Inr 120"
proof -
  have o: "outcome (respond (boot late) (spawned (boot late) + 2)
        (compose_logs (service_name_of ''lua''))) = Inr ''TOTAL_TIME_MS: 120''"
    by (simp add: boot_def late_def service_name_of_def)
  have t: "60000 < took (respond (boot late) (spawned (boot late) + 2)
        (compose_logs (service_name_of ''lua'')))"
    by (simp add: boot_def late_def service_name_of_def)
  from first_fetch_before_timeout [where w = "boot late" and p = "''lua''" and c = 5
      and wd = 50 and out = "''TOTAL_TIME_MS: 120''" and v = 120, THEN conjunct2, THEN conjunct2]
    never_raises_late o scan_120
  have "fst (run_benchmark ''lua'' 5 50 (boot late)) = Inr 120" by blast
  with never_raises_late o t scan_120 show ?thesis by blast
qed

lemma run_benchmark_stages:
  "snd (run_benchmark p c wd w) \<in>
     {snd (subprocess_run (compose_down p) (length (heap w)) (prepare p c wd w)),
      started p c wd w,
      snd (poll p (service_name_of p) (length (heap w)) (time_time (started p c wd w))
             (started p c wd w)),
      snd (subprocess_run (compose_down p) (length (heap w))
        (snd (poll p (service_name_of p) (length (heap w)) (time_time (started p c wd w))
             (started p c wd w))))}"
  by (subst run_benchmark_unfold) (simp add: case_prod_beta started_def split: sum.splits)

lemma heap_run_benchmark: "heap (snd (run_benchmark p c wd w)) = heap w @ [trial_env c wd w]"
  using run_benchmark_stages [of p c wd w] by auto

lemma spawn_env_poll_event:
  "list_all (poll_event p sn d) xs \<Longrightarrow> Spawn argv d' \<in> set xs \<Longrightarrow> d' = d"
  by (induction xs) (auto simp: poll_event_def)

lemma run_benchmark_spawn_env:
  assumes "Spawn argv d \<in> set (drop (length (events w)) (events (snd (run_benchmark p c wd w))))"
  shows "d = trial_env c wd w"
proof -
  let ?env = "length (heap w)"
  let ?w5 = "snd (subprocess_run (compose_down p) ?env (prepare p c wd w))"
  let ?w6 = "started p c wd w"
  let ?w7 = "snd (poll p (service_name_of p) ?env (time_time ?w6) ?w6)"
  let ?w8 = "snd (subprocess_run (compose_down p) ?env ?w7)"
  let ?d = "trial_env c wd w"
  let ?pre = "[Print (running_line p c wd), Spawn (compose_down p) ?d, Spawn (compose_up p) ?d]"
  from events_poll [of p "service_name_of p" ?env "time_time ?w6" ?w6]
  obtain xs where xs: "events ?w7 = events ?w6 @ xs"
    "list_all (poll_event p (service_name_of p) ?d) xs" by auto
  have e5: "drop (length (events w)) (events ?w5)
      = [Print (running_line p c wd), Spawn (compose_down p) ?d]" by simp
  have e6: "drop (length (events w)) (events ?w6) = ?pre" by (simp add: events_started)
  have e7: "drop (length (events w)) (events ?w7) = ?pre @ xs"
    by (simp add: xs(1) events_started)
  have e8: "drop (length (events w)) (events ?w8) = ?pre @ xs @ [Spawn (compose_down p) ?d]"
    by (simp add: xs(1) events_started)
  from run_benchmark_stages [of p c wd w]
  consider "snd (run_benchmark p c wd w) = ?w5" | "snd (run_benchmark p c wd w) = ?w6"
    | "snd (run_benchmark p c wd w) = ?w7" | "snd (run_benchmark p c wd w) = ?w8" by blast
  then show ?thesis
  proof cases
    case 1
    have "Spawn argv d \<in> set (drop (length (events w)) (events ?w5))"
      using assms unfolding 1 .
    then show ?thesis unfolding e5 by auto
  next
    case 2
    have "Spawn argv d \<in> set (drop (length (events w)) (events ?w6))"
      using assms unfolding 2 .
    then show ?thesis unfolding e6 by auto
  next
    case 3
    have "Spawn argv d \<in> set (drop (length (events w)) (events ?w7))"
      using assms unfolding 3 .
    then have "Spawn argv d \<in> set ?pre \<or> Spawn argv d \<in> set xs" unfolding e7 by auto
    then show ?thesis using spawn_env_poll_event [OF xs(2)] by auto
  next
    case 4
    have "Spawn argv d \<in> set (drop (length (events w)) (events ?w8))"
      using assms unfolding 4 .
    then have "Spawn argv d \<in> set ?pre \<or> Spawn argv d \<in> set xs
        \<or> Spawn argv d = Spawn (compose_down p) ?d" unfolding e8 by auto
    then show ?thesis using spawn_env_poll_event [OF xs(2)] by auto
  qed
qed

lemma py_int_snoc: "py_int (ds @ [c]) = 10 * py_int ds + int (of_char c - 48)"
  by (simp add: py_int_def)

lemma digit_codes:
  "\<forall>k<length ''0123456789''. of_char (''0123456789'' ! k) = (48::nat) + k"
  by (simp add: All_less_Suc)

lemma of_char_digit_char: "n < 10 \<Longrightarrow> of_char (digit_char n) = 48 + n"
  using digit_codes by (simp add: digit_char_def)

lemma py_int_str_nat: "py_int (str_nat n) = int n"
proof (induction n rule: str_nat.induct)
  case (1 n)
  show ?case
  proof (cases "n < 10")
    case True
    then show ?thesis
      by (subst str_nat.simps) (simp add: py_int_def of_char_digit_char)
  next
    case False
    have "py_int (str_nat n) = 10 * py_int (str_nat (n div 10)) + int (n mod 10)"
      using False by (subst str_nat.simps) (simp add: py_int_snoc of_char_digit_char)
    also have "\<dots> = 10 * int (n div 10) + int (n mod 10)" using "1.IH" [OF False] by simp
    also have "\<dots> = int n" by (simp add: zdiv_int zmod_int)
    finally show ?thesis .
  qed
qed

text \<open>
  Claim C10. Every child process a trial starts, on every path and for every command,
  receives the same environment: the contents of \<^verbatim>\<open>os.environ\<close> at the trial's start with
  \<^verbatim>\<open>NUM_CONSUMERS\<close> and \<^verbatim>\<open>WORK_DURATION\<close> set to \<^verbatim>\<open>str\<close> of the two parameters, a decimal
  rendering that \<^verbatim>\<open>int\<close> reads back. The trial allocates that one dictionary and changes
  no object that existed before, \<^verbatim>\<open>os.environ\<close> in particular.
\<close>

theorem children_get_extended_copy:
  assumes "heap w \<noteq> []"
  shows "(\<forall>argv d. Spawn argv d
             \<in> set (drop (length (events w)) (events (snd (run_benchmark p c wd w))))
           \<longrightarrow> d = trial_env c wd w)
       \<and> map_of (trial_env c wd w)
           = (map_of (heap w ! os_environ))(''NUM_CONSUMERS'' \<mapsto> str c,
                ''WORK_DURATION'' \<mapsto> str wd)
       \<and> (0 \<le> c \<longrightarrow> py_int (str c) = c) \<and> (0 \<le> wd \<longrightarrow> py_int (str wd) = wd)
       \<and> heap (snd (run_benchmark p c wd w)) = heap w @ [trial_env c wd w]
       \<and> heap (snd (run_benchmark p c wd w)) ! os_environ = heap w ! os_environ"
proof (intro conjI allI impI)
  fix argv d
  assume "Spawn argv d
             \<in> set (drop (length (events w)) (events (snd (run_benchmark p c wd w))))"
  then show "d = trial_env c wd w" by (rule run_benchmark_spawn_env)
next
  show "map_of (trial_env c wd w)
           = (map_of (heap w ! os_environ))(''NUM_CONSUMERS'' \<mapsto> str c,
                ''WORK_DURATION'' \<mapsto> str wd)"
    by (simp add: trial_env_def update_conv')
next
  assume "0 \<le> c" then show "py_int (str c) = c" by (simp add: str_def py_int_str_nat)
next
  assume "0 \<le> wd" then show "py_int (str wd) = wd" by (simp add: str_def py_int_str_nat)
next
  show "heap (snd (run_benchmark p c wd w)) = heap w @ [trial_env c wd w]"
    by (rule heap_run_benchmark)
next
  from assms show "heap (snd (run_benchmark p c wd w)) ! os_environ = heap w ! os_environ"
    by (simp add: heap_run_benchmark os_environ_def nth_append)
qed

lemma spawn_in_trial:
  "never_raises w \<Longrightarrow>
     Spawn (compose_up p) (trial_env c wd w)
       \<in> set (drop (length (events w)) (events (snd (run_benchmark p c wd w))))"
  using trial_events_no_raise [of w p c wd] by auto

theorem children_get_extended_copy_witness:
  "heap (boot prompt) \<noteq> []
   \<and> Spawn (compose_up ''lua'') (trial_env 5 50 (boot prompt))
       \<in> set (drop (length (events (boot prompt)))
                 (events (snd (run_benchmark ''lua'' 5 50 (boot prompt)))))
   \<and> trial_env 5 50 (boot prompt)
       = [(''PATH'', ''/usr/bin''), (''NUM_CONSUMERS'', ''5''), (''WORK_DURATION'', ''50'')]
   \<and> heap (snd (run_benchmark ''lua'' 5 50 (boot prompt))) ! os_environ
       = [(''PATH'', ''/usr/bin'')]"
proof -
  have h: "heap (boot prompt) \<noteq> []" by (simp add: boot_def)
  have e: "trial_env 5 50 (boot prompt)
       = [(''PATH'', ''/usr/bin''), (''NUM_CONSUMERS'', ''5''), (''WORK_DURATION'', ''50'')]"
    by (simp add: trial_env_def boot_def os_environ_def str_def str_nat.simps digit_char_def)
  have o: "heap (boot prompt) ! os_environ = [(''PATH'', ''/usr/bin'')]"
    by (simp add: boot_def os_environ_def)
  have "heap (snd (run_benchmark ''lua'' 5 50 (boot prompt))) ! os_environ
       = [(''PATH'', ''/usr/bin'')]"
    using children_get_extended_copy [OF h, of "''lua''" 5 50, THEN conjunct2, THEN conjunct2,
      THEN conjunct2, THEN conjunct2, THEN conjunct2]
    by (simp only: o)
  with h e spawn_in_trial [OF never_raises_prompt, of "''lua''" 5 50] show ?thesis by blast
qed

lemma report_row_example:
  "report_row 5 120 300 150 = ''5          | 120        | 300             |   150.00%''"
  by (simp add: report_row_def ljust_def rjust_def format_2f_def round_half_even_def
        str_def str_nat.simps digit_char_def Let_def; simp add: eval_nat_numeral)

lemma row_fields_example:
  "row_fields ''5          | 120        | 300             |   150.00%''
     = [''5'', ''120'', ''300'', ''150.00%'']"
  by (simp add: row_fields_def strip_def)

lemma trial_first_fetch:
  assumes "never_raises w"
    and "outcome (respond w (spawned w + 2) (compose_logs (service_name_of p))) = Inr out"
    and "scan_logs out = Some v"
  shows "\<exists>w'. run_benchmark p c wd w = (Inr v, w')"
proof -
  let ?w6 = "started p c wd w"
  from assms(2) have "outcome (fetch (service_name_of p) ?w6) = Inr out"
    by (simp add: fetch_def spawned_started)
  with assms(3) have "fst (poll p (service_name_of p) (length (heap w)) (now ?w6) ?w6) = Inr v"
    by (simp add: poll_found)
  with run_benchmark_no_raise [OF assms(1), of p c wd] show ?thesis by auto
qed

lemma trial_shows_at_once:
  assumes "never_raises w" and "shows_at_once (service_name_of p) v w"
  shows "\<exists>w'. run_benchmark p c wd w = (Inr v, w')"
proof -
  from assms(2) obtain out where
    "outcome (respond w (spawned w + 2) (compose_logs (service_name_of p))) = Inr out"
    "scan_logs out = Some v"
    unfolding shows_at_once_def by blast
  with assms(1) show ?thesis by (rule trial_first_fetch)
qed

lemma shows_at_once_run_benchmark:
  "never_raises w \<Longrightarrow>
     shows_at_once sn v (snd (run_benchmark p c wd w)) = shows_at_once sn v w"
  by (simp add: shows_at_once_def respond_run_benchmark)

text \<open>
  Claim C7. In a sweep over the single level 5 with a work duration of 50, when nothing
  raises and the logs of the two services show 120 and 300 from the first fetch on, the
  sweep ends normally and the last line printed is the row with the fields \<open>5\<close>, \<open>120\<close>,
  \<open>300\<close> and \<open>150.00%\<close>, padded and separated by bars as the format string says.
\<close>

theorem sweep_scenario_row:
  assumes "never_raises w"
    and "shows_at_once (service_name_of ''lua'') 120 w"
    and "shows_at_once (service_name_of ''redlock'') 300 w"
  shows "\<exists>w' line. sweep [5] 50 w = (Inr (), w') \<and> last (events w') = Print line
           \<and> line = ''5          | 120        | 300             |   150.00%''
           \<and> row_fields line = [''5'', ''120'', ''300'', ''150.00%'']"
proof -
  from trial_shows_at_once [OF assms(1,2), of 5 50] obtain w1 where
    l: "run_benchmark ''lua'' 5 50 w = (Inr 120, w1)" by blast
  have n1: "never_raises w1"
    using never_raises_run_benchmark [OF assms(1), of "''lua''" 5 50] l by simp
  have "shows_at_once (service_name_of ''redlock'') 300 w1"
    using shows_at_once_run_benchmark [OF assms(1), of _ _ "''lua''" 5 50] assms(3) l by simp
  from trial_shows_at_once [OF n1 this, of 5 50] obtain w2 where
    r: "run_benchmark ''redlock'' 5 50 w1 = (Inr 300, w2)" by blast
  have d: "percent_diff 120 300 = Inr 150" by (simp add: percent_diff_def truediv_def)
  have "sweep [5] 50 w = (Inr (), print (report_row 5 120 300 150) w2)"
    by (subst sweep.simps) (simp only: l r d prod.case sum.case sweep.simps)
  moreover have "last (events (print (report_row 5 120 300 150) w2))
      = Print ''5          | 120        | 300             |   150.00%''"
    by (simp only: print_def report_row_example) simp
  ultimately show ?thesis using row_fields_example by blast
qed

lemma shows_prompt:
  "shows_at_once (service_name_of ''lua'') 120 (boot prompt)"
  "shows_at_once (service_name_of ''redlock'') 300 (boot prompt)"
  by (simp_all add: shows_at_once_def boot_def prompt_def service_name_of_def compose_logs_def
        scan_logs_def match_here_def is_digit_def py_int_def)

theorem sweep_scenario_row_witness:
  "never_raises (boot prompt)
   \<and> shows_at_once (service_name_of ''lua'') 120 (boot prompt)
   \<and> shows_at_once (service_name_of ''redlock'') 300 (boot prompt)
   \<and> (\<exists>w'. sweep [5] 50 (boot prompt) = (Inr (), w')
         \<and> last (events w') = Print ''5          | 120        | 300             |   150.00%'')"
  using sweep_scenario_row [OF never_raises_prompt shows_prompt]
    never_raises_prompt shows_prompt
  by blast

lemma run_benchmark_Inr_world:
  assumes "run_benchmark p c wd w = (Inr v, w')"
  shows "w' = snd (subprocess_run (compose_down p) (length (heap w))
           (snd (poll p (service_name_of p) (length (heap w)) (time_time (started p c wd w))
              (started p c wd w))))"
  using assms
  by (subst (asm) run_benchmark_unfold)
     (auto simp: case_prod_beta started_def split: sum.splits)

lemma run_benchmark_trace:
  assumes "run_benchmark p c wd w = (Inr v, w')"
  shows "\<exists>t. events w' = events w @ t \<and> is_trial p c wd t"
proof -
  let ?env = "length (heap w)"
  let ?w6 = "started p c wd w"
  let ?w7 = "snd (poll p (service_name_of p) ?env (time_time ?w6) ?w6)"
  let ?d = "trial_env c wd w"
  from events_poll [of p "service_name_of p" ?env "time_time ?w6" ?w6]
  obtain xs where xs: "events ?w7 = events ?w6 @ xs"
    "list_all (poll_event p (service_name_of p) ?d) xs" by auto
  have "events w' = events ?w7 @ [Spawn (compose_down p) ?d]"
    unfolding run_benchmark_Inr_world [OF assms] by simp
  then have "events w' = events w @ trial_trace p c wd ?d xs"
    by (simp add: xs(1) events_started trial_trace_def)
  with xs(2) show ?thesis unfolding is_trial_def by blast
qed

text \<open>
  Claim C8. When a sweep runs to its end, the events it adds are, level by level in the order
  of the list of levels, the complete Lua trial (from its announcement to its teardown), then
  the complete Redlock trial, then the printed row of that level.
\<close>

theorem sweep_order:
  assumes "sweep counts wd w = (Inr (), w')"
  shows "\<exists>segs. map fst segs = counts
           \<and> events w' = events w @ concat (map level_trace segs)
           \<and> list_all (is_level wd) segs"
  using assms
proof (induction counts arbitrary: w)
  case Nil
  then have "w' = w" by simp
  then show ?case by (intro exI [of _ "[]"]) simp
next
  case (Cons c cs)
  from Cons.prems obtain l w1 where l: "run_benchmark ''lua'' c wd w = (Inr l, w1)"
    by (cases "run_benchmark ''lua'' c wd w"; cases "fst (run_benchmark ''lua'' c wd w)")
       (auto split: prod.splits sum.splits)
  from Cons.prems l obtain r w2 where r: "run_benchmark ''redlock'' c wd w1 = (Inr r, w2)"
    by (cases "run_benchmark ''redlock'' c wd w1";
        cases "fst (run_benchmark ''redlock'' c wd w1)")
       (auto split: prod.splits sum.splits)
  from Cons.prems l r obtain d where d: "percent_diff l r = Inr d"
    by (cases "percent_diff l r") auto
  let ?line = "report_row c l r d"
  from Cons.prems l r d have rest: "sweep cs wd (print ?line w2) = (Inr (), w')" by simp
  from Cons.IH [OF rest] obtain segs where segs: "map fst segs = cs"
    "events w' = events (print ?line w2) @ concat (map level_trace segs)"
    "list_all (is_level wd) segs" by blast
  from run_benchmark_trace [OF l] obtain tl where
    tl: "events w1 = events w @ tl" "is_trial ''lua'' c wd tl" by blast
  from run_benchmark_trace [OF r] obtain tr where
    tr: "events w2 = events w1 @ tr" "is_trial ''redlock'' c wd tr" by blast
  let ?seg = "(c, tl, tr, ?line)"
  have a: "map fst (?seg # segs) = c # cs" using segs(1) by simp
  have b: "events w' = events w @ concat (map level_trace (?seg # segs))"
    using segs(2) tl(1) tr(1) by (simp add: print_def level_trace_def)
  have c: "list_all (is_level wd) (?seg # segs)"
    using segs(3) tl(2) tr(2) by (auto simp: is_level_def)
  from a b c have "map fst (?seg # segs) = c # cs
      \<and> events w' = events w @ concat (map level_trace (?seg # segs))
      \<and> list_all (is_level wd) (?seg # segs)" by (intro conjI)
  then show ?case by (rule exI)
qed

lemma sweep_no_raise: "never_raises w \<Longrightarrow> \<exists>w'. sweep counts wd w = (Inr (), w')"
proof (induction counts arbitrary: w)
  case Nil
  then show ?case by simp
next
  case (Cons c cs)
  from trial_no_raise [OF Cons.prems, of "''lua''" c wd] obtain l w1 where
    l: "run_benchmark ''lua'' c wd w = (Inr l, w1)"
    by (cases "run_benchmark ''lua'' c wd w") auto
  have n1: "never_raises w1"
    using never_raises_run_benchmark [OF Cons.prems, of "''lua''" c wd] l by simp
  from trial_no_raise [OF n1, of "''redlock''" c wd] obtain r w2 where
    r: "run_benchmark ''redlock'' c wd w1 = (Inr r, w2)"
    by (cases "run_benchmark ''redlock'' c wd w1") auto
  have n2: "never_raises w2"
    using never_raises_run_benchmark [OF n1, of "''redlock''" c wd] r by simp
  obtain d where d: "percent_diff l r = Inr d"
    by (cases "0 < l") (simp_all add: percent_diff_def truediv_def)
  have "never_raises (print (report_row c l r d) w2)"
    using n2 by (simp add: never_raises_def print_def)
  from Cons.IH [OF this] obtain w' where
    "sweep cs wd (print (report_row c l r d) w2) = (Inr (), w')" by blast
  then have "sweep (c # cs) wd w = (Inr (), w')"
    by (subst sweep.simps) (simp only: l r d prod.case sum.case)
  then show ?case by blast
qed

theorem sweep_order_witness:
  "\<exists>w'. sweep [5, 10] 50 (boot prompt) = (Inr (), w')
     \<and> (\<exists>segs. map fst segs = [5, 10]
           \<and> events w' = events (boot prompt) @ concat (map level_trace segs)
           \<and> list_all (is_level 50) segs)"
proof -
  from sweep_no_raise [OF never_raises_prompt, of "[5, 10]" 50] obtain w' where
    s: "sweep [5, 10] 50 (boot prompt) = (Inr (), w')" by blast
  have "sweep [5, 10] 50 (boot prompt) = (Inr (), w')
     \<and> (\<exists>segs. map fst segs = [5, 10]
           \<and> events w' = events (boot prompt) @ concat (map level_trace segs)
           \<and> list_all (is_level 50) segs)"
    using s sweep_order [OF s] by (rule conjI)
  then show ?thesis by (rule exI)
qed

end
